theory Spec2Isabelle
  imports Complex_Main "HOL-Library.Word" "HOL-Library.Multiset"
begin

section \<open>Python values, errors and arrays\<close>

text \<open>
  The module \<^verbatim>\<open>merlin/analysis/preprocess.py\<close> is embedded function by function.
  Every exception the source can raise is a value of \<open>error\<close>; a function that can
  raise returns \<open>error + 'a\<close> with \<open>Inl\<close> the exception.
\<close>

datatype error =
    IndexError
  | KeyError
  | TypeError
  | ValueError
  | HistogramNotFound
  | DependencyUnavailable

text \<open>
  The values of the task's \<^verbatim>\<open>parameters\<close> dictionary: numbers (Python ints and
  floats, read as reals) and strings (the name of the warp task).
\<close>

datatype pval = Num real | Str string

type_synonym params = "string \<rightharpoonup> pval"

text \<open>
  A two-dimensional numpy array: its \<^verbatim>\<open>shape\<close> attribute and its rows. The shape
  is kept beside the rows because an array with no rows still has a column count.
\<close>

record 'a ndarray =
  shape :: "nat \<times> nat"
  rows :: "'a list list"

definition wf_array :: "'a ndarray \<Rightarrow> bool" where
  "wf_array a =
     (length (rows a) = fst (shape a) \<and> list_all (\<lambda>r. length r = snd (shape a)) (rows a))"

text \<open>\<^verbatim>\<open>a.size\<close> and \<^verbatim>\<open>a.ravel()\<close>: the number of entries and the entries in row-major order.\<close>

definition ravel :: "'a ndarray \<Rightarrow> 'a list" where
  "ravel a = concat (rows a)"

text \<open>\<^verbatim>\<open>np.zeros(shape)\<close>.\<close>

definition zeros :: "nat \<times> nat \<Rightarrow> nat ndarray" where
  "zeros s = \<lparr>shape = s, rows = replicate (fst s) (replicate (snd s) 0)\<rparr>"

section \<open>Configuration: \<^verbatim>\<open>DeconvolutionPreprocess.__init__\<close>\<close>


text \<open>\<^verbatim>\<open>int(2 * np.ceil(2 * sigma) + 1)\<close>.\<close>

definition filter_size :: "real \<Rightarrow> int" where
  "filter_size sigma = 2 * \<lceil>2 * sigma\<rceil> + 1"



text \<open>
  The external collaborators reached through \<^verbatim>\<open>self.dataSet\<close>: the list of fields
  of view, the depth positions, the codebooks, the bit to channel lookup, the loader of
  analysis tasks, and the array store that holds the saved pixel histograms of this
  task, keyed by field of view.
\<close>

record codebook =
  get_bit_names :: "string list"
  get_bit_count :: nat

type_synonym warp_task = "nat \<Rightarrow> nat \<Rightarrow> nat \<Rightarrow> error + 16 word ndarray"

record dataset =
  get_fovs :: "nat list"
  get_z_positions :: "real list"
  get_codebook :: "pval \<Rightarrow> error + codebook"
  get_data_channel_for_bit :: "string \<Rightarrow> error + nat"
  load_analysis_task :: "pval \<Rightarrow> error + warp_task"
  pixel_histograms :: "nat \<rightharpoonup> nat ndarray"

text \<open>The attributes of a \<^verbatim>\<open>DeconvolutionPreprocess\<close> instance set by \<^verbatim>\<open>__init__\<close>.\<close>

record task =
  parameters :: params
  highPassSigma :: pval
  deconSigma :: pval
  deconIterations :: pval
  warpTask :: warp_task

text \<open>Python's \<^verbatim>\<open>d[key]\<close>.\<close>

definition getitem :: "params \<Rightarrow> string \<Rightarrow> error + pval" where
  "getitem p k = (case p k of None \<Rightarrow> Inl KeyError | Some v \<Rightarrow> Inr v)"


section \<open>The restoration pipeline: \<^verbatim>\<open>_preprocess_image\<close>\<close>

text \<open>
  What the module calls and does not define, taken as parameters: OpenCV's
  \<^verbatim>\<open>GaussianBlur\<close> (source image, square kernel size, sigma; the result has the
  type of the source image), \<^verbatim>\<open>deconvolve.deconvolve_lucyrichardson\<close> (image,
  filter size, sigma, iteration count), and what the platform's conversion from a
  double to a 16-bit unsigned integer gives for a value beyond the 32-bit range.
\<close>

record env =
  GaussianBlur :: "16 word ndarray \<Rightarrow> int \<Rightarrow> real \<Rightarrow> error + 16 word ndarray"
  deconvolve_lucyrichardson :: "real ndarray \<Rightarrow> pval \<Rightarrow> pval \<Rightarrow> pval \<Rightarrow> error + real ndarray"
  cast_out_of_range :: "real \<Rightarrow> 16 word"

text \<open>
  \<^verbatim>\<open>a.astype(float)\<close> on a 16-bit image. A binary64 float holds every integer below
  \<open>2 ^ 53\<close>, so the floats of line 164 are the integers themselves and their
  difference is exact: they are read as reals.
\<close>

definition astype_float :: "16 word ndarray \<Rightarrow> real ndarray" where
  "astype_float a = \<lparr>shape = shape a, rows = map (map (\<lambda>p. real (unat p))) (rows a)\<rparr>"

text \<open>
  \<^verbatim>\<open>a - b\<close> on arrays: a new array. Operands of different shapes raise
  \<open>ValueError\<close> (numpy would first try to broadcast; the blurred image has the shape
  of its source, so no broadcasting arises here).
\<close>

definition subtract :: "real ndarray \<Rightarrow> real ndarray \<Rightarrow> error + real ndarray" where
  "subtract a b =
     (if shape a = shape b
      then Inr \<lparr>shape = shape a, rows = map2 (map2 (-)) (rows a) (rows b)\<rparr>
      else Inl ValueError)"

text \<open>\<^verbatim>\<open>a[a < 0] = 0\<close>.\<close>

definition clip_negative :: "real ndarray \<Rightarrow> real ndarray" where
  "clip_negative a = a\<lparr>rows := map (map (\<lambda>v. if v < 0 then 0 else v)) (rows a)\<rparr>"

text \<open>Lines 164 to 167: the high-pass stage.\<close>

definition high_pass :: "env \<Rightarrow> int \<Rightarrow> real \<Rightarrow> 16 word ndarray \<Rightarrow> error + real ndarray" where
  "high_pass env highPassFilterSize sigma inputImage =
     (case GaussianBlur env inputImage highPassFilterSize sigma of
        Inl e \<Rightarrow> Inl e
      | Inr blurred \<Rightarrow>
          (case subtract (astype_float inputImage) (astype_float blurred) of
             Inl e \<Rightarrow> Inl e
           | Inr filteredImage \<Rightarrow> Inr (clip_negative filteredImage)))"

text \<open>
  \<^verbatim>\<open>.astype(np.uint16)\<close> on a float is numpy's C conversion, with no check of the
  range: the fraction is dropped (rounding towards zero) and, of a value within the
  32-bit integers, the low 16 bits are kept, so that a value outside 0..65535 wraps
  around. Beyond the 32-bit range the value is the platform's.
\<close>

definition trunc :: "real \<Rightarrow> int" where
  "trunc x = (if 0 \<le> x then \<lfloor>x\<rfloor> else \<lceil>x\<rceil>)"

definition astype_uint16 :: "env \<Rightarrow> real \<Rightarrow> 16 word" where
  "astype_uint16 env x =
     (if - 2147483648 < x \<and> x < 2147483648 then word_of_int (trunc x)
      else cast_out_of_range env x)"

definition astype_uint16_array :: "env \<Rightarrow> real ndarray \<Rightarrow> 16 word ndarray" where
  "astype_uint16_array env a = \<lparr>shape = shape a, rows = map (map (astype_uint16 env)) (rows a)\<rparr>"

text \<open>Lines 160 to 171.\<close>

definition preprocess_image :: "env \<Rightarrow> task \<Rightarrow> 16 word ndarray \<Rightarrow> error + 16 word ndarray" where
  "preprocess_image env t inputImage =
     (case highPassSigma t of
        Str _ \<Rightarrow> Inl TypeError
      | Num sigma \<Rightarrow>
     (case getitem (parameters t) ''decon_filter_size'' of
        Inl e \<Rightarrow> Inl e
      | Inr deconFilterSize \<Rightarrow>
     (case high_pass env (filter_size sigma) sigma inputImage of
        Inl e \<Rightarrow> Inl e
      | Inr filteredImage \<Rightarrow>
     (case deconvolve_lucyrichardson env filteredImage deconFilterSize
             (deconSigma t) (deconIterations t) of
        Inl e \<Rightarrow> Inl e
      | Inr deconvolved \<Rightarrow> Inr (astype_uint16_array env deconvolved)))))"

section \<open>The pixel histogram of a fragment: \<^verbatim>\<open>_run_analysis\<close>\<close>

text \<open>\<^verbatim>\<open>np.iinfo(np.uint16).max\<close> and \<^verbatim>\<open>np.arange(0, np.iinfo(np.uint16).max, 1)\<close>.\<close>

definition uint16_max :: nat where
  "uint16_max = unat (- 1 :: 16 word)"

definition histogramBins :: "nat list" where
  "histogramBins = [0..<uint16_max]"

text \<open>
  \<^verbatim>\<open>np.histogram(a, bins=edges)[0]\<close> for increasing edges: bin \<open>j\<close> counts the values
  \<open>v\<close> with \<open>edges[j] \<le> v < edges[j+1]\<close>, and the last bin also takes
  \<open>v = edges[-1]\<close>. A value outside \<open>[edges[0], edges[-1]]\<close> is in no bin.
\<close>

definition in_bin :: "nat list \<Rightarrow> nat \<Rightarrow> nat \<Rightarrow> bool" where
  "in_bin edges j v =
     (edges ! j \<le> v \<and>
      (if j + 2 = length edges then v \<le> edges ! (j + 1) else v < edges ! (j + 1)))"

definition np_histogram :: "nat list \<Rightarrow> nat list \<Rightarrow> nat list" where
  "np_histogram vals edges =
     map (\<lambda>j. length (filter (in_bin edges j) vals)) [0..<length edges - 1]"

text \<open>
  \<^verbatim>\<open>pixelHistogram[bi, :] += counts\<close>: \<open>IndexError\<close> for a row that does not exist,
  \<open>ValueError\<close> for counts of another length than the row.
\<close>

definition add_to_row :: "nat ndarray \<Rightarrow> nat \<Rightarrow> nat list \<Rightarrow> error + nat ndarray" where
  "add_to_row h bi counts =
     (if fst (shape h) \<le> bi then Inl IndexError
      else if length counts \<noteq> snd (shape h) then Inl ValueError
      else Inr (h\<lparr>rows := (rows h)[bi := map2 (+) (rows h ! bi) counts]\<rparr>))"

text \<open>The inner loop, lines 150 to 156, over the depth indices still to do.\<close>

fun accumulate_slices ::
  "env \<Rightarrow> task \<Rightarrow> warp_task \<Rightarrow> nat \<Rightarrow> nat \<Rightarrow> nat \<Rightarrow> nat list \<Rightarrow> nat ndarray \<Rightarrow> error + nat ndarray"
where
  "accumulate_slices env t warp fragmentIndex dataChannel bi [] h = Inr h"
| "accumulate_slices env t warp fragmentIndex dataChannel bi (i # zs) h =
     (case warp fragmentIndex dataChannel i of
        Inl e \<Rightarrow> Inl e
      | Inr inputImage \<Rightarrow>
     (case preprocess_image env t inputImage of
        Inl e \<Rightarrow> Inl e
      | Inr deconvolvedImage \<Rightarrow>
     (case add_to_row h bi (np_histogram (map unat (ravel deconvolvedImage)) histogramBins) of
        Inl e \<Rightarrow> Inl e
      | Inr h' \<Rightarrow> accumulate_slices env t warp fragmentIndex dataChannel bi zs h')))"

text \<open>The outer loop, lines 147 to 156, over the enumerated bit names still to do.\<close>

fun accumulate_bits ::
  "env \<Rightarrow> dataset \<Rightarrow> task \<Rightarrow> warp_task \<Rightarrow> nat \<Rightarrow> (nat \<times> string) list \<Rightarrow> nat ndarray \<Rightarrow> error + nat ndarray"
where
  "accumulate_bits env ds t warp fragmentIndex [] h = Inr h"
| "accumulate_bits env ds t warp fragmentIndex ((bi, b) # bs) h =
     (case get_data_channel_for_bit ds b of
        Inl e \<Rightarrow> Inl e
      | Inr dataChannel \<Rightarrow>
     (case accumulate_slices env t warp fragmentIndex dataChannel bi
             [0..<length (get_z_positions ds)] h of
        Inl e \<Rightarrow> Inl e
      | Inr h' \<Rightarrow> accumulate_bits env ds t warp fragmentIndex bs h'))"

text \<open>\<^verbatim>\<open>_save_pixel_histogram\<close>: the store of the data set, with one more entry.\<close>

definition save_pixel_histogram :: "dataset \<Rightarrow> nat ndarray \<Rightarrow> nat \<Rightarrow> dataset" where
  "save_pixel_histogram ds histogram fov =
     ds\<lparr>pixel_histograms := (pixel_histograms ds)(fov \<mapsto> histogram)\<rparr>"

text \<open>Lines 137 to 158. The result is the data set after the histogram is saved.\<close>

definition run_analysis :: "env \<Rightarrow> dataset \<Rightarrow> task \<Rightarrow> nat \<Rightarrow> error + dataset" where
  "run_analysis env ds t fragmentIndex =
     (case getitem (parameters t) ''warp_task'' of
        Inl e \<Rightarrow> Inl e
      | Inr w \<Rightarrow>
     (case load_analysis_task ds w of
        Inl e \<Rightarrow> Inl e
      | Inr warp \<Rightarrow>
     (case getitem (parameters t) ''codebook_index'' of
        Inl e \<Rightarrow> Inl e
      | Inr ci \<Rightarrow>
     (case get_codebook ds ci of
        Inl e \<Rightarrow> Inl e
      | Inr cb \<Rightarrow>
     (case accumulate_bits env ds t warp fragmentIndex
             (enumerate 0 (get_bit_names cb))
             (zeros (get_bit_count cb, length histogramBins - 1)) of
        Inl e \<Rightarrow> Inl e
      | Inr pixelHistogram \<Rightarrow> Inr (save_pixel_histogram ds pixelHistogram fragmentIndex))))))"

section \<open>Reading histograms back: \<^verbatim>\<open>get_pixel_histogram\<close>\<close>

text \<open>
  Modelled from the spec: \<^verbatim>\<open>dataSet.load_numpy_analysis_result\<close> is not in the
  module. The spec's Histogram Store returns the persisted histogram of a fragment and
  fails with HistogramNotFound if that fragment has none.
\<close>

definition load_numpy_analysis_result :: "dataset \<Rightarrow> nat \<Rightarrow> error + nat ndarray" where
  "load_numpy_analysis_result ds fov =
     (case pixel_histograms ds fov of None \<Rightarrow> Inl HistogramNotFound | Some h \<Rightarrow> Inr h)"

text \<open>
  \<^verbatim>\<open>a += b\<close> on arrays, written for operands of one shape: another shape raises
  \<open>ValueError\<close> (numpy would first try to broadcast \<open>b\<close> to the shape of \<open>a\<close>).
\<close>

definition iadd :: "nat ndarray \<Rightarrow> nat ndarray \<Rightarrow> error + nat ndarray" where
  "iadd a b =
     (if shape a = shape b
      then Inr (a\<lparr>rows := map2 (map2 (+)) (rows a) (rows b)\<rparr>)
      else Inl ValueError)"

text \<open>The loop of lines 29 and 30 over the fields of view still to add.\<close>

fun accumulate_fovs :: "dataset \<Rightarrow> nat list \<Rightarrow> nat ndarray \<Rightarrow> error + nat ndarray" where
  "accumulate_fovs ds [] pixelHistogram = Inr pixelHistogram"
| "accumulate_fovs ds (f # fs) pixelHistogram =
     (case load_numpy_analysis_result ds f of
        Inl e \<Rightarrow> Inl e
      | Inr h \<Rightarrow>
     (case iadd pixelHistogram h of
        Inl e \<Rightarrow> Inl e
      | Inr pixelHistogram' \<Rightarrow> accumulate_fovs ds fs pixelHistogram'))"

text \<open>
  Lines 22 to 32. \<open>None\<close> is the omitted argument; the recursive calls of the source
  all pass a field of view and so take the first branch.
\<close>

definition get_pixel_histogram :: "dataset \<Rightarrow> nat option \<Rightarrow> error + nat ndarray" where
  "get_pixel_histogram ds fov =
     (case fov of
        Some f \<Rightarrow> load_numpy_analysis_result ds f
      | None \<Rightarrow>
          (case get_fovs ds of
             [] \<Rightarrow> Inl IndexError
           | f0 # _ \<Rightarrow>
               (case load_numpy_analysis_result ds f0 of
                  Inl e \<Rightarrow> Inl e
                | Inr h0 \<Rightarrow> accumulate_fovs ds (get_fovs ds) (zeros (shape h0)))))"

section \<open>The pipeline on a store of arrays\<close>

text \<open>
  The same lines 160 to 171 with the arrays held in a store, to see which array each
  statement writes. 16-bit and float arrays live at addresses of their own kind; an
  address below the next free one is in use. \<^verbatim>\<open>astype\<close>, the subtraction,
  \<^verbatim>\<open>GaussianBlur\<close> (called with no destination) and the deconvolution return a new
  array; the masked assignment of line 167 writes into its operand.
\<close>

record store =
  u16 :: "nat \<Rightarrow> 16 word ndarray"
  f64 :: "nat \<Rightarrow> real ndarray"
  next_u16 :: nat
  next_f64 :: nat

definition new_u16 :: "store \<Rightarrow> 16 word ndarray \<Rightarrow> nat \<times> store" where
  "new_u16 s a =
     (next_u16 s, s\<lparr>u16 := (u16 s)(next_u16 s := a), next_u16 := Suc (next_u16 s)\<rparr>)"

definition new_f64 :: "store \<Rightarrow> real ndarray \<Rightarrow> nat \<times> store" where
  "new_f64 s a =
     (next_f64 s, s\<lparr>f64 := (f64 s)(next_f64 s := a), next_f64 := Suc (next_f64 s)\<rparr>)"

definition preprocess_image_store :: "env \<Rightarrow> task \<Rightarrow> store \<Rightarrow> nat \<Rightarrow> error + nat \<times> store" where
  "preprocess_image_store env t s0 inputImage =
     (case highPassSigma t of
        Str _ \<Rightarrow> Inl TypeError
      | Num sigma \<Rightarrow>
     (case getitem (parameters t) ''decon_filter_size'' of
        Inl e \<Rightarrow> Inl e
      | Inr deconFilterSize \<Rightarrow>
     (let (asFloat, s1) = new_f64 s0 (astype_float (u16 s0 inputImage)) in
     (case GaussianBlur env (u16 s1 inputImage) (filter_size sigma) sigma of
        Inl e \<Rightarrow> Inl e
      | Inr b \<Rightarrow>
     (let (blurred, s2) = new_u16 s1 b in
     (case subtract (f64 s2 asFloat) (astype_float (u16 s2 blurred)) of
        Inl e \<Rightarrow> Inl e
      | Inr d \<Rightarrow>
     (let (filteredImage, s3) = new_f64 s2 d;
          s4 = s3\<lparr>f64 := (f64 s3)(filteredImage := clip_negative (f64 s3 filteredImage))\<rparr>
      in
     (case deconvolve_lucyrichardson env (f64 s4 filteredImage) deconFilterSize
             (deconSigma t) (deconIterations t) of
        Inl e \<Rightarrow> Inl e
      | Inr r \<Rightarrow>
     (let (deconvolved, s5) = new_f64 s4 r
      in Inr (new_u16 s5 (astype_uint16_array env (f64 s5 deconvolved))))))))))))"

section \<open>Example inputs\<close>

text \<open>
  A data set with no field of view whose only analysis task is a warp task named
  \<^verbatim>\<open>warp\<close>, and a parameter dictionary that breaks every invariant the data model
  lists for the restoration parameters.
\<close>

definition example_warp :: warp_task where
  "example_warp fov ch z = Inl DependencyUnavailable"

definition example_dataset :: dataset where
  "example_dataset = \<lparr>get_fovs = [], get_z_positions = [],
     get_codebook = (\<lambda>_. Inl IndexError),
     get_data_channel_for_bit = (\<lambda>_. Inl KeyError),
     load_analysis_task = (\<lambda>w. if w = Str ''warp'' then Inr example_warp else Inl KeyError),
     pixel_histograms = Map.empty\<rparr>"


text \<open>
  Two fields of view with saved histograms of one shape, and the same data set before
  the second field of view has been processed.
\<close>

definition two_fragments :: dataset where
  "two_fragments = example_dataset\<lparr>get_fovs := [0, 1],
     pixel_histograms := [0 \<mapsto> \<lparr>shape = (1, 2), rows = [[3, 4]]\<rparr>,
                          1 \<mapsto> \<lparr>shape = (1, 2), rows = [[10, 20]]\<rparr>]\<rparr>"

definition second_missing :: dataset where
  "second_missing = example_dataset\<lparr>get_fovs := [0, 1],
     pixel_histograms := [0 \<mapsto> \<lparr>shape = (1, 2), rows = [[3, 4]]\<rparr>]\<rparr>"

text \<open>A one-pixel image at the 16-bit maximum and a black one.\<close>

definition one_pixel :: "16 word ndarray" where
  "one_pixel = \<lparr>shape = (1, 1), rows = [[65535]]\<rparr>"

definition dark_pixel :: "16 word ndarray" where
  "dark_pixel = \<lparr>shape = (1, 1), rows = [[0]]\<rparr>"

text \<open>
  Stand-ins for the libraries: a blur that returns a black image of the shape of its
  source (a second one returns a white image), a deconvolution that returns its input
  (a second one returns 65536.0 everywhere), and a conversion that wraps.
\<close>

definition example_env :: env where
  "example_env = \<lparr>
     GaussianBlur = (\<lambda>src k sigma. Inr \<lparr>shape = shape src, rows = map (map (\<lambda>_. 0)) (rows src)\<rparr>),
     deconvolve_lucyrichardson = (\<lambda>image size sigma n. Inr image),
     cast_out_of_range = (\<lambda>x. word_of_int (trunc x))\<rparr>"

definition bright_env :: env where
  "bright_env = example_env\<lparr>
     GaussianBlur := (\<lambda>src k sigma. Inr \<lparr>shape = shape src, rows = map (map (\<lambda>_. 65535)) (rows src)\<rparr>)\<rparr>"

definition overflow_env :: env where
  "overflow_env = example_env\<lparr>
     deconvolve_lucyrichardson :=
       (\<lambda>image size sigma n. Inr \<lparr>shape = shape image, rows = map (map (\<lambda>_. 65536)) (rows image)\<rparr>)\<rparr>"

definition example_task :: task where
  "example_task = \<lparr>
     parameters = [''decon_filter_size'' \<mapsto> Num 9, ''codebook_index'' \<mapsto> Num 0,
                   ''warp_task'' \<mapsto> Str ''warp''],
     highPassSigma = Num 3, deconSigma = Num 2, deconIterations = Num 20,
     warpTask = example_warp\<rparr>"

text \<open>
  One field of view, one depth position and a codebook of one bit; the aligned image of
  every channel and slice is the one-pixel image above.
\<close>

definition saturated_dataset :: dataset where
  "saturated_dataset = example_dataset\<lparr>get_fovs := [0], get_z_positions := [0],
     get_codebook := (\<lambda>_. Inr \<lparr>get_bit_names = [''bit1''], get_bit_count = 1\<rparr>),
     get_data_channel_for_bit := (\<lambda>_. Inr 0),
     load_analysis_task := (\<lambda>_. Inr (\<lambda>fov channel z. Inr one_pixel))\<rparr>"

text \<open>A store whose only array in use is the one-pixel image, at address 0.\<close>

definition example_store :: store where
  "example_store = \<lparr>u16 = (\<lambda>_. one_pixel), f64 = (\<lambda>_. \<lparr>shape = (0, 0), rows = []\<rparr>),
     next_u16 = 1, next_f64 = 0\<rparr>"

section \<open>Counting\<close>

text \<open>
  The pixels of an image that lie below the 16-bit maximum, which are those that
  \<^verbatim>\<open>np.histogram\<close> with the edges of \<open>histogramBins\<close> puts in a bin.
\<close>

definition counted :: "16 word ndarray \<Rightarrow> nat" where
  "counted img = length (filter (\<lambda>v. v < uint16_max) (map unat (ravel img)))"

section \<open>Properties of the configuration\<close>
























section \<open>Properties of the histogram store\<close>

lemma shape_iadd: "iadd a b = Inr c \<Longrightarrow> shape c = shape a"
  by (auto simp: iadd_def split: if_splits)

lemma wf_arrayD:
  "wf_array a \<Longrightarrow> length (rows a) = fst (shape a)"
  "wf_array a \<Longrightarrow> i < fst (shape a) \<Longrightarrow> length (rows a ! i) = snd (shape a)"
  by (auto simp: wf_array_def list_all_length)

lemma wf_arrayI:
  "length (rows a) = fst (shape a) \<Longrightarrow>
   (\<And>i. i < fst (shape a) \<Longrightarrow> length (rows a ! i) = snd (shape a)) \<Longrightarrow> wf_array a"
  by (auto simp: wf_array_def list_all_length)

lemma wf_iadd:
  assumes "iadd a b = Inr c" "wf_array a" "wf_array b"
  shows "wf_array c"
proof -
  from assms(1) have s: "shape a = shape b"
    and c: "c = a\<lparr>rows := map2 (map2 (+)) (rows a) (rows b)\<rparr>"
    by (auto simp: iadd_def split: if_splits)
  show ?thesis
    by (rule wf_arrayI) (simp_all add: c wf_arrayD[OF assms(2)] wf_arrayD[OF assms(3)] s[symmetric])
qed

lemma nth_iadd:
  assumes "iadd a b = Inr c" "wf_array a" "wf_array b" "i < fst (shape a)" "j < snd (shape a)"
  shows "rows c ! i ! j = rows a ! i ! j + rows b ! i ! j"
proof -
  from assms(1) have s: "shape a = shape b"
    and c: "c = a\<lparr>rows := map2 (map2 (+)) (rows a) (rows b)\<rparr>"
    by (auto simp: iadd_def split: if_splits)
  show ?thesis
    using assms(4,5)
    by (simp add: c wf_arrayD[OF assms(2)] wf_arrayD[OF assms(3)] s[symmetric])
qed

lemma ndarray_eqI:
  fixes a b :: "'a ndarray"
  assumes "wf_array a" "wf_array b" "shape a = shape b"
    and "\<And>i j. i < fst (shape a) \<Longrightarrow> j < snd (shape a) \<Longrightarrow> rows a ! i ! j = rows b ! i ! j"
  shows "a = b"
proof -
  have "rows a = rows b"
  proof (rule nth_equalityI)
    show "length (rows a) = length (rows b)"
      by (simp add: wf_arrayD[OF assms(1)] wf_arrayD[OF assms(2)] assms(3))
  next
    fix i assume "i < length (rows a)"
    hence i: "i < fst (shape a)" by (simp add: wf_arrayD[OF assms(1)])
    show "rows a ! i = rows b ! i"
    proof (rule nth_equalityI)
      show "length (rows a ! i) = length (rows b ! i)"
        using i by (simp add: wf_arrayD[OF assms(1)] wf_arrayD[OF assms(2)] assms(3)[symmetric])
    next
      fix j assume "j < length (rows a ! i)"
      hence "j < snd (shape a)" using i by (simp add: wf_arrayD[OF assms(1)])
      thus "rows a ! i ! j = rows b ! i ! j" using i by (rule assms(4)[rotated])
    qed
  qed
  thus ?thesis using assms(3) by simp
qed

lemma wf_zeros: "wf_array (zeros s)"
  by (simp add: wf_array_def zeros_def list_all_length)

lemma nth_zeros: "i < fst s \<Longrightarrow> j < snd s \<Longrightarrow> rows (zeros s) ! i ! j = 0"
  by (simp add: zeros_def)

lemma accumulate_fovs_sum:
  assumes "\<forall>g\<in>set fs. \<exists>h. pixel_histograms ds g = Some h \<and> shape h = s \<and> wf_array h"
    and "wf_array acc" "shape acc = s"
  shows "\<exists>H. accumulate_fovs ds fs acc = Inr H \<and> shape H = s \<and> wf_array H
     \<and> (\<forall>i < fst s. \<forall>j < snd s. rows H ! i ! j =
           rows acc ! i ! j + (\<Sum>g\<leftarrow>fs. rows (the (pixel_histograms ds g)) ! i ! j))"
  using assms
proof (induction fs arbitrary: acc)
  case Nil
  then show ?case by simp
next
  case (Cons g fs)
  from Cons.prems(1) obtain h where h: "pixel_histograms ds g = Some h" "shape h = s" "wf_array h"
    by auto
  with Cons.prems obtain acc' where a: "iadd acc h = Inr acc'"
    by (auto simp: iadd_def)
  have wa: "wf_array acc'" by (rule wf_iadd[OF a Cons.prems(2) h(3)])
  have sa: "shape acc' = s" using shape_iadd[OF a] Cons.prems(3) by simp
  from Cons.prems(1) have rest: "\<forall>g\<in>set fs. \<exists>h. pixel_histograms ds g = Some h \<and> shape h = s \<and> wf_array h"
    by simp
  from Cons.IH[OF rest wa sa] obtain H where H: "accumulate_fovs ds fs acc' = Inr H"
    "shape H = s" "wf_array H"
    "\<forall>i < fst s. \<forall>j < snd s. rows H ! i ! j =
           rows acc' ! i ! j + (\<Sum>g\<leftarrow>fs. rows (the (pixel_histograms ds g)) ! i ! j)"
    by blast
  have "accumulate_fovs ds (g # fs) acc = Inr H"
    using h a H(1) by (simp add: load_numpy_analysis_result_def)
  moreover have "\<forall>i < fst s. \<forall>j < snd s. rows H ! i ! j =
           rows acc ! i ! j + (\<Sum>g\<leftarrow>g # fs. rows (the (pixel_histograms ds g)) ! i ! j)"
  proof (intro allI impI)
    fix i j assume ij: "i < fst s" "j < snd s"
    have "rows acc' ! i ! j = rows acc ! i ! j + rows h ! i ! j"
      using nth_iadd[OF a Cons.prems(2) h(3)] ij Cons.prems(3) by simp
    thus "rows H ! i ! j =
           rows acc ! i ! j + (\<Sum>g\<leftarrow>g # fs. rows (the (pixel_histograms ds g)) ! i ! j)"
      using H(4) ij h(1) by simp
  qed
  ultimately show ?case using H(2,3) by blast
qed

lemma accumulate_fovs_get_fovs_update:
  "accumulate_fovs (ds\<lparr>get_fovs := fs'\<rparr>) fs acc = accumulate_fovs ds fs acc"
  by (induction fs arbitrary: acc)
     (auto simp: load_numpy_analysis_result_def split: sum.splits option.splits)

lemma aggregate_sum_aux:
  assumes "fs \<noteq> []"
    and "\<forall>f\<in>set fs. \<exists>h. pixel_histograms ds f = Some h \<and> shape h = s \<and> wf_array h"
  shows "\<exists>H. get_pixel_histogram (ds\<lparr>get_fovs := fs\<rparr>) None = Inr H \<and> shape H = s \<and> wf_array H
     \<and> (\<forall>i < fst s. \<forall>j < snd s. rows H ! i ! j =
           (\<Sum>f\<leftarrow>fs. rows (the (pixel_histograms ds f)) ! i ! j))"
proof -
  from assms(1) obtain f0 fs0 where l: "fs = f0 # fs0" by (cases fs) auto
  with assms(2) obtain h0 where h0: "pixel_histograms ds f0 = Some h0" "shape h0 = s"
    by auto
  have z: "wf_array (zeros (shape h0))" "shape (zeros (shape h0)) = s"
    using h0 by (simp_all add: wf_zeros) (simp add: zeros_def)
  from accumulate_fovs_sum[OF assms(2) z] obtain H where
    H: "accumulate_fovs ds fs (zeros (shape h0)) = Inr H" "shape H = s" "wf_array H"
    "\<forall>i < fst s. \<forall>j < snd s. rows H ! i ! j =
           rows (zeros (shape h0)) ! i ! j + (\<Sum>g\<leftarrow>fs. rows (the (pixel_histograms ds g)) ! i ! j)"
    by blast
  have "get_pixel_histogram (ds\<lparr>get_fovs := fs\<rparr>) None =
          accumulate_fovs (ds\<lparr>get_fovs := fs\<rparr>) fs (zeros (shape h0))"
    using h0(1) unfolding l
    by (simp add: get_pixel_histogram_def load_numpy_analysis_result_def
          del: accumulate_fovs.simps)
  hence "get_pixel_histogram (ds\<lparr>get_fovs := fs\<rparr>) None = Inr H"
    using H(1) by (simp only: accumulate_fovs_get_fovs_update)
  moreover have "\<forall>i < fst s. \<forall>j < snd s. rows H ! i ! j =
           (\<Sum>f\<leftarrow>fs. rows (the (pixel_histograms ds f)) ! i ! j)"
    using H(4) h0(2) by (simp add: nth_zeros)
  ultimately show ?thesis using H(2,3) by blast
qed

text \<open>
  C7. When the data set lists at least one field of view and every listed field of view
  has a saved histogram of one shape \<open>s\<close>, the aggregate is returned, has shape
  \<open>s\<close>, and each of its entries is the sum of that entry over the listed fields of
  view, each taken once. Listing the fields of view in any other order gives the same
  array.
\<close>

theorem aggregate_is_sum:
  assumes "get_fovs ds \<noteq> []"
    and "\<forall>f\<in>set (get_fovs ds). \<exists>h. pixel_histograms ds f = Some h \<and> shape h = s \<and> wf_array h"
  shows "\<exists>H. get_pixel_histogram ds None = Inr H \<and> shape H = s \<and> wf_array H
     \<and> (\<forall>i < fst s. \<forall>j < snd s. rows H ! i ! j =
           (\<Sum>f\<leftarrow>get_fovs ds. rows (the (pixel_histograms ds f)) ! i ! j))
     \<and> (\<forall>fs'. mset fs' = mset (get_fovs ds) \<longrightarrow>
           get_pixel_histogram (ds\<lparr>get_fovs := fs'\<rparr>) None = Inr H)"
proof -
  from aggregate_sum_aux[OF assms] obtain H where
    H: "get_pixel_histogram ds None = Inr H" "shape H = s" "wf_array H"
    "\<forall>i < fst s. \<forall>j < snd s. rows H ! i ! j =
           (\<Sum>f\<leftarrow>get_fovs ds. rows (the (pixel_histograms ds f)) ! i ! j)"
    by auto
  have "get_pixel_histogram (ds\<lparr>get_fovs := fs'\<rparr>) None = Inr H"
    if m: "mset fs' = mset (get_fovs ds)" for fs'
  proof -
    from m have "set fs' = set (get_fovs ds)" by (rule mset_eq_setD)
    moreover from m assms(1) have "fs' \<noteq> []" by auto
    ultimately obtain H' where
      H': "get_pixel_histogram (ds\<lparr>get_fovs := fs'\<rparr>) None = Inr H'" "shape H' = s" "wf_array H'"
      "\<forall>i < fst s. \<forall>j < snd s. rows H' ! i ! j =
           (\<Sum>f\<leftarrow>fs'. rows (the (pixel_histograms ds f)) ! i ! j)"
      using aggregate_sum_aux[of fs' ds s] assms(2) by auto
    have "H' = H"
    proof (rule ndarray_eqI[OF H'(3) H(3)])
      show "shape H' = shape H" by (simp add: H H')
    next
      fix i j assume "i < fst (shape H')" "j < snd (shape H')"
      hence ij: "i < fst s" "j < snd s" by (simp_all add: H')
      let ?g = "\<lambda>f. rows (the (pixel_histograms ds f)) ! i ! j"
      have "mset (map ?g fs') = mset (map ?g (get_fovs ds))"
        by (simp add: m)
      hence "sum_mset (mset (map ?g fs')) = sum_mset (mset (map ?g (get_fovs ds)))"
        by (rule arg_cong)
      hence "sum_list (map ?g fs') = sum_list (map ?g (get_fovs ds))"
        by (simp only: sum_mset_sum_list)
      thus "rows H' ! i ! j = rows H ! i ! j"
        using H(4) H'(4) ij by simp
    qed
    thus ?thesis using H'(1) by simp
  qed
  thus ?thesis using H by blast
qed

theorem aggregate_is_sum_witness:
  "get_fovs two_fragments \<noteq> []
   \<and> list_all (\<lambda>f. map_option (\<lambda>h. (shape h, wf_array h)) (pixel_histograms two_fragments f)
                     = Some ((1, 2), True)) (get_fovs two_fragments)
   \<and> get_pixel_histogram two_fragments None = Inr \<lparr>shape = (1, 2), rows = [[13, 24]]\<rparr>
   \<and> get_pixel_histogram (two_fragments\<lparr>get_fovs := [1, 0]\<rparr>) None
       = Inr \<lparr>shape = (1, 2), rows = [[13, 24]]\<rparr>"
proof -
  have 1: "get_fovs two_fragments \<noteq> []" by (simp add: two_fragments_def)
  have 2: "\<forall>f\<in>set (get_fovs two_fragments).
     \<exists>h. pixel_histograms two_fragments f = Some h \<and> shape h = (1, 2) \<and> wf_array h"
    by (simp add: two_fragments_def wf_array_def)
  have 3: "list_all (\<lambda>f. map_option (\<lambda>h. (shape h, wf_array h)) (pixel_histograms two_fragments f)
                     = Some ((1, 2), True)) (get_fovs two_fragments)"
    by (simp add: two_fragments_def wf_array_def)
  from aggregate_is_sum[OF 1 2] obtain H where
    H: "get_pixel_histogram two_fragments None = Inr H"
    and p: "\<forall>fs'. mset fs' = mset (get_fovs two_fragments) \<longrightarrow>
           get_pixel_histogram (two_fragments\<lparr>get_fovs := fs'\<rparr>) None = Inr H"
    by blast
  have e: "get_pixel_histogram two_fragments None = Inr \<lparr>shape = (1, 2), rows = [[13, 24]]\<rparr>"
    by (simp add: get_pixel_histogram_def two_fragments_def example_dataset_def
          load_numpy_analysis_result_def zeros_def iadd_def numeral_2_eq_2)
  have "mset [1, 0] = mset (get_fovs two_fragments)"
    by (simp add: two_fragments_def)
  with p have "get_pixel_histogram (two_fragments\<lparr>get_fovs := [1, 0]\<rparr>) None = Inr H"
    by blast
  with H e 1 3 show ?thesis by simp
qed

lemma accumulate_fovs_missing:
  "f \<in> set fs \<Longrightarrow> pixel_histograms ds f = None \<Longrightarrow> accumulate_fovs ds fs acc \<noteq> Inr h"
  by (induction fs arbitrary: acc)
     (auto simp: load_numpy_analysis_result_def split: option.splits sum.splits)

lemma iadd_same_shape: "shape a = shape b \<Longrightarrow> \<exists>c. iadd a b = Inr c"
  by (simp add: iadd_def)

lemma accumulate_fovs_not_found:
  assumes "f \<in> set fs" "pixel_histograms ds f = None"
    and "\<forall>g\<in>set fs. \<forall>h. pixel_histograms ds g = Some h \<longrightarrow> shape h = s"
    and "shape acc = s"
  shows "accumulate_fovs ds fs acc = Inl HistogramNotFound"
  using assms
proof (induction fs arbitrary: acc)
  case Nil
  then show ?case by simp
next
  case (Cons g fs)
  show ?case
  proof (cases "pixel_histograms ds g")
    case None
    then show ?thesis by (simp add: load_numpy_analysis_result_def)
  next
    case (Some h)
    with Cons.prems have sh: "shape h = s" by simp
    with Cons.prems obtain acc' where a: "iadd acc h = Inr acc'"
      using iadd_same_shape[of acc h] by auto
    have "shape acc' = s" using shape_iadd[OF a] Cons.prems by simp
    moreover have "f \<in> set fs" using Cons.prems Some by auto
    ultimately have "accumulate_fovs ds fs acc' = Inl HistogramNotFound"
      using Cons.IH Cons.prems by simp
    then show ?thesis using Some a by (simp add: load_numpy_analysis_result_def)
  qed
qed

text \<open>
  C8. A field of view with no saved histogram: asking for its histogram fails with
  HistogramNotFound; if it is among the listed fields of view, asking for the aggregate
  never returns an array, and fails with HistogramNotFound when the histograms that are
  saved have one shape (as those written by \<^verbatim>\<open>_run_analysis\<close> have).
\<close>

theorem histogram_not_found:
  assumes "pixel_histograms ds f = None"
  shows "get_pixel_histogram ds (Some f) = Inl HistogramNotFound
     \<and> (f \<in> set (get_fovs ds) \<longrightarrow>
          (\<forall>h. get_pixel_histogram ds None \<noteq> Inr h)
        \<and> ((\<forall>g\<in>set (get_fovs ds). \<forall>h. pixel_histograms ds g = Some h \<longrightarrow> shape h = s)
             \<longrightarrow> get_pixel_histogram ds None = Inl HistogramNotFound))"
proof (intro conjI impI allI)
  show "get_pixel_histogram ds (Some f) = Inl HistogramNotFound"
    using assms by (simp add: get_pixel_histogram_def load_numpy_analysis_result_def)
next
  fix h assume "f \<in> set (get_fovs ds)"
  then show "get_pixel_histogram ds None \<noteq> Inr h"
    using accumulate_fovs_missing[OF _ assms, of "get_fovs ds"]
    by (auto simp: get_pixel_histogram_def split: list.splits sum.splits)
next
  assume f: "f \<in> set (get_fovs ds)"
    and u: "\<forall>g\<in>set (get_fovs ds). \<forall>h. pixel_histograms ds g = Some h \<longrightarrow> shape h = s"
  then obtain f0 fs where l: "get_fovs ds = f0 # fs" by (cases "get_fovs ds") auto
  show "get_pixel_histogram ds None = Inl HistogramNotFound"
  proof (cases "pixel_histograms ds f0")
    case None
    then show ?thesis by (simp add: get_pixel_histogram_def l load_numpy_analysis_result_def)
  next
    case (Some h0)
    hence "shape h0 = s" using u l by simp
    hence "shape (zeros (shape h0)) = s" by (simp add: zeros_def)
    from accumulate_fovs_not_found[OF f assms u this]
    show ?thesis using Some by (simp add: get_pixel_histogram_def l load_numpy_analysis_result_def)
  qed
qed

theorem histogram_not_found_witness:
  "pixel_histograms second_missing 1 = None
   \<and> get_pixel_histogram second_missing (Some 1) = Inl HistogramNotFound
   \<and> 1 \<in> set (get_fovs second_missing)
   \<and> get_pixel_histogram second_missing None = Inl HistogramNotFound"
proof -
  have 1: "pixel_histograms second_missing 1 = None" by (simp add: second_missing_def)
  have 2: "1 \<in> set (get_fovs second_missing)" by (simp add: second_missing_def)
  have 3: "\<forall>g\<in>set (get_fovs second_missing). \<forall>h.
      pixel_histograms second_missing g = Some h \<longrightarrow> shape h = (1, 2)"
    by (auto simp: second_missing_def)
  from histogram_not_found[OF 1, of "(1, 2)"] 2 3
  have "get_pixel_histogram second_missing (Some 1) = Inl HistogramNotFound"
    "get_pixel_histogram second_missing None = Inl HistogramNotFound"
    by blast+
  with 1 2 show ?thesis by (intro conjI)
qed

text \<open>
  C10. With no field of view in the data set, asking for the aggregate fails with
  IndexError: \<^verbatim>\<open>get_fovs()[0]\<close> indexes an empty list.
\<close>

theorem get_pixel_histogram_no_fovs:
  "get_fovs ds = [] \<Longrightarrow> get_pixel_histogram ds None = Inl IndexError"
  by (simp add: get_pixel_histogram_def)

theorem get_pixel_histogram_no_fovs_witness:
  "get_fovs example_dataset = [] \<and> get_pixel_histogram example_dataset None = Inl IndexError"
proof -
  have h: "get_fovs example_dataset = []" by (simp add: example_dataset_def)
  from get_pixel_histogram_no_fovs[OF h] h show ?thesis by simp
qed

section \<open>Properties of the restoration pipeline\<close>

lemma wf_astype_float: "wf_array a \<Longrightarrow> wf_array (astype_float a)"
  by (simp add: wf_array_def astype_float_def list_all_length)

lemma shape_astype_float: "shape (astype_float a) = shape a"
  by (simp add: astype_float_def)

lemma wf_subtract:
  assumes "subtract a b = Inr c" "wf_array a" "wf_array b"
  shows "wf_array c \<and> shape c = shape a"
proof -
  from assms(1) have s: "shape a = shape b"
    and c: "c = \<lparr>shape = shape a, rows = map2 (map2 (-)) (rows a) (rows b)\<rparr>"
    by (auto simp: subtract_def split: if_splits)
  have "wf_array c"
    by (rule wf_arrayI) (simp_all add: c wf_arrayD[OF assms(2)] wf_arrayD[OF assms(3)] s[symmetric])
  thus ?thesis by (simp add: c)
qed

lemma wf_clip_negative: "wf_array a \<Longrightarrow> wf_array (clip_negative a)"
  by (simp add: wf_array_def clip_negative_def list_all_length)

lemma shape_clip_negative: "shape (clip_negative a) = shape a"
  by (simp add: clip_negative_def)

lemma clip_negative_nonneg: "\<forall>row\<in>set (rows (clip_negative a)). \<forall>v\<in>set row. 0 \<le> v"
  by (auto simp: clip_negative_def)

text \<open>
  C5. Whenever the blur returns an image of the shape of its source, the high-pass stage
  returns an image of that same shape (with rows and columns as the shape says) and no
  entry of it is negative.
\<close>

theorem high_pass_nonnegative:
  assumes "GaussianBlur env inputImage k sigma = Inr blurred"
    and "shape blurred = shape inputImage"
    and "wf_array inputImage" and "wf_array blurred"
  shows "\<exists>filtered. high_pass env k sigma inputImage = Inr filtered
      \<and> shape filtered = shape inputImage \<and> wf_array filtered
      \<and> (\<forall>row\<in>set (rows filtered). \<forall>v\<in>set row. 0 \<le> v)"
proof -
  obtain d where d: "subtract (astype_float inputImage) (astype_float blurred) = Inr d"
    using assms(2) by (simp add: subtract_def shape_astype_float)
  from wf_subtract[OF d wf_astype_float[OF assms(3)] wf_astype_float[OF assms(4)]]
  have wd: "wf_array d" "shape d = shape inputImage" by (simp_all add: shape_astype_float)
  have "high_pass env k sigma inputImage = Inr (clip_negative d)"
    by (simp add: high_pass_def assms(1) d)
  thus ?thesis
    using wd clip_negative_nonneg[of d]
    by (simp add: wf_clip_negative shape_clip_negative)
qed

theorem high_pass_nonnegative_witness:
  "GaussianBlur bright_env dark_pixel 13 3 = Inr one_pixel
   \<and> shape one_pixel = shape dark_pixel \<and> wf_array dark_pixel \<and> wf_array one_pixel
   \<and> high_pass bright_env 13 3 dark_pixel = Inr \<lparr>shape = (1, 1), rows = [[0]]\<rparr>"
proof -
  have 1: "GaussianBlur bright_env dark_pixel 13 3 = Inr one_pixel"
    by (simp add: bright_env_def example_env_def dark_pixel_def one_pixel_def)
  have 2: "shape one_pixel = shape dark_pixel" by (simp add: dark_pixel_def one_pixel_def)
  have 3: "wf_array dark_pixel" by (simp add: dark_pixel_def wf_array_def)
  have 4: "wf_array one_pixel" by (simp add: one_pixel_def wf_array_def)
  have 5: "high_pass bright_env 13 3 dark_pixel = Inr \<lparr>shape = (1, 1), rows = [[0]]\<rparr>"
    by (simp add: high_pass_def bright_env_def example_env_def subtract_def astype_float_def
          clip_negative_def dark_pixel_def)
  from high_pass_nonnegative[OF 1 2 3 4] 1 2 3 4 5 show ?thesis by (intro conjI)
qed

lemma trunc_in_range:
  assumes "- 1 < x" "x < 65536"
  shows "0 \<le> trunc x \<and> trunc x < 65536"
proof (cases "0 \<le> x")
  case True
  then show ?thesis using assms by (simp add: trunc_def floor_less_iff)
next
  case False
  hence "\<lceil>x\<rceil> = 0" using assms by (intro ceiling_unique) simp_all
  with False show ?thesis by (simp add: trunc_def)
qed

lemma uint_astype_uint16:
  assumes "- 1 < x" "x < 65536"
  shows "uint (astype_uint16 env x) = trunc x"
proof -
  from trunc_in_range[OF assms] have "trunc x mod 2 ^ 16 = trunc x" by simp
  thus ?thesis using assms by (simp add: astype_uint16_def uint_word_of_int)
qed

lemma uint_astype_uint16_wrap:
  assumes "- 2147483648 < x" "x < 2147483648"
  shows "uint (astype_uint16 env x) = trunc x mod 65536"
  using assms by (simp add: astype_uint16_def uint_word_of_int)

lemma unat_uint16_le: "unat (p :: 16 word) \<le> 65535"
  using unsigned_less[of p, where ?'a = nat] by simp

text \<open>
  C6, as the code has it. When the high-pass stage and the deconvolution return, the
  pipeline returns the deconvolution's float image converted entry by entry to 16-bit
  unsigned integers, the conversion being the last step: the result has the shape of
  the float image and every pixel of it lies in 0..65535. An entry that fits in 16 bits
  is cut to its integer part; an entry that does not is not clamped: within the 32-bit
  range its integer part is reduced modulo 65536.
\<close>

theorem preprocess_image_uint16:
  assumes "highPassSigma t = Num sigma"
    and "parameters t ''decon_filter_size'' = Some deconFilterSize"
    and "high_pass env (filter_size sigma) sigma inputImage = Inr filtered"
    and "deconvolve_lucyrichardson env filtered deconFilterSize (deconSigma t) (deconIterations t)
           = Inr d"
  shows "preprocess_image env t inputImage = Inr (astype_uint16_array env d)
     \<and> shape (astype_uint16_array env d) = shape d
     \<and> (\<forall>row\<in>set (rows (astype_uint16_array env d)). \<forall>p\<in>set row. unat p \<le> 65535)
     \<and> (\<forall>i j. i < length (rows d) \<longrightarrow> j < length (rows d ! i)
            \<longrightarrow> - 1 < rows d ! i ! j \<longrightarrow> rows d ! i ! j < 65536
            \<longrightarrow> uint (rows (astype_uint16_array env d) ! i ! j) = trunc (rows d ! i ! j))
     \<and> (\<forall>i j. i < length (rows d) \<longrightarrow> j < length (rows d ! i)
            \<longrightarrow> - 2147483648 < rows d ! i ! j \<longrightarrow> rows d ! i ! j < 2147483648
            \<longrightarrow> uint (rows (astype_uint16_array env d) ! i ! j)
                  = trunc (rows d ! i ! j) mod 65536)"
proof (intro conjI ballI allI impI)
  show "preprocess_image env t inputImage = Inr (astype_uint16_array env d)"
    by (simp add: preprocess_image_def getitem_def assms)
next
  show "shape (astype_uint16_array env d) = shape d"
    by (simp add: astype_uint16_array_def)
next
  fix row p assume "row \<in> set (rows (astype_uint16_array env d))" "p \<in> set row"
  show "unat p \<le> 65535" by (rule unat_uint16_le)
next
  fix i j assume "i < length (rows d)" "j < length (rows d ! i)"
    "- 1 < rows d ! i ! j" "rows d ! i ! j < 65536"
  thus "uint (rows (astype_uint16_array env d) ! i ! j) = trunc (rows d ! i ! j)"
    by (simp add: astype_uint16_array_def uint_astype_uint16)
next
  fix i j assume "i < length (rows d)" "j < length (rows d ! i)"
    "- 2147483648 < rows d ! i ! j" "rows d ! i ! j < 2147483648"
  thus "uint (rows (astype_uint16_array env d) ! i ! j) = trunc (rows d ! i ! j) mod 65536"
    by (simp add: astype_uint16_array_def uint_astype_uint16_wrap)
qed

theorem preprocess_image_uint16_witness:
  "highPassSigma example_task = Num 3
   \<and> parameters example_task ''decon_filter_size'' = Some (Num 9)
   \<and> high_pass example_env (filter_size 3) 3 one_pixel = Inr \<lparr>shape = (1, 1), rows = [[65535]]\<rparr>
   \<and> deconvolve_lucyrichardson example_env \<lparr>shape = (1, 1), rows = [[65535]]\<rparr> (Num 9)
        (deconSigma example_task) (deconIterations example_task)
        = Inr \<lparr>shape = (1, 1), rows = [[65535]]\<rparr>
   \<and> preprocess_image example_env example_task one_pixel = Inr one_pixel"
proof -
  let ?f = "\<lparr>shape = (1, 1), rows = [[65535]]\<rparr> :: real ndarray"
  have 1: "highPassSigma example_task = Num 3" by (simp add: example_task_def)
  have 2: "parameters example_task ''decon_filter_size'' = Some (Num 9)"
    by (simp add: example_task_def)
  have 3: "high_pass example_env (filter_size 3) 3 one_pixel = Inr ?f"
    by (simp add: high_pass_def example_env_def subtract_def astype_float_def
          clip_negative_def one_pixel_def)
  have 4: "deconvolve_lucyrichardson example_env ?f (Num 9)
        (deconSigma example_task) (deconIterations example_task) = Inr ?f"
    by (simp add: example_env_def)
  have 5: "astype_uint16_array example_env ?f = one_pixel"
    by (simp add: astype_uint16_array_def astype_uint16_def trunc_def one_pixel_def)
  from preprocess_image_uint16[OF 1 2 3 4]
  have "preprocess_image example_env example_task one_pixel = Inr one_pixel"
    unfolding 5 by blast
  with 1 2 3 4 show ?thesis by (intro conjI)
qed

text \<open>
  The conversion does not clamp: 65536.0 becomes 0 and 70000.0 becomes 4464, and a
  pipeline whose deconvolution returns 65536.0 for the pixel returns the pixel 0.
\<close>

theorem astype_uint16_wraps:
  "astype_uint16 example_env 65536 = 0
   \<and> astype_uint16 example_env 70000 = 4464
   \<and> preprocess_image overflow_env example_task one_pixel = Inr dark_pixel"
  by (simp add: astype_uint16_def trunc_def preprocess_image_def getitem_def example_task_def
        high_pass_def overflow_env_def example_env_def subtract_def astype_float_def
        clip_negative_def one_pixel_def dark_pixel_def filter_size_def astype_uint16_array_def)

text \<open>
  C9. Run on a store, the pipeline returns its result at an address that was not in use
  and leaves every array that was in use as it was, the input image among them; the
  array at the returned address is the image the pipeline computes.
\<close>

theorem preprocess_image_store_frame:
  assumes "preprocess_image env t (u16 s inputImage) = Inr out" and "inputImage < next_u16 s"
  shows "\<exists>r s'. preprocess_image_store env t s inputImage = Inr (r, s')
     \<and> u16 s' r = out \<and> r \<noteq> inputImage \<and> next_u16 s \<le> r
     \<and> u16 s' inputImage = u16 s inputImage
     \<and> (\<forall>a. a < next_u16 s \<longrightarrow> u16 s' a = u16 s a)
     \<and> (\<forall>a. a < next_f64 s \<longrightarrow> f64 s' a = f64 s a)"
proof -
  from assms(1) obtain sigma deconFilterSize b d r where
    1: "highPassSigma t = Num sigma"
    and 2: "getitem (parameters t) ''decon_filter_size'' = Inr deconFilterSize"
    and 3: "GaussianBlur env (u16 s inputImage) (filter_size sigma) sigma = Inr b"
    and 4: "subtract (astype_float (u16 s inputImage)) (astype_float b) = Inr d"
    and 5: "deconvolve_lucyrichardson env (clip_negative d) deconFilterSize
             (deconSigma t) (deconIterations t) = Inr r"
    and 6: "out = astype_uint16_array env r"
    by (auto simp: preprocess_image_def high_pass_def split: pval.splits sum.splits)
  show ?thesis
    using assms(2)
    by (simp add: preprocess_image_store_def 1 2 3 4 5 6 new_u16_def new_f64_def Let_def)
qed

lemma preprocess_one_pixel:
  "preprocess_image example_env example_task one_pixel = Inr one_pixel"
  by (simp add: preprocess_image_def getitem_def example_task_def high_pass_def example_env_def
        subtract_def astype_float_def clip_negative_def one_pixel_def filter_size_def
        astype_uint16_array_def astype_uint16_def trunc_def)

theorem preprocess_image_store_frame_witness:
  "preprocess_image example_env example_task (u16 example_store 0) = Inr one_pixel
   \<and> 0 < next_u16 example_store
   \<and> (\<exists>r s'. preprocess_image_store example_env example_task example_store 0 = Inr (r, s')
         \<and> u16 s' r = one_pixel \<and> r \<noteq> 0 \<and> u16 s' 0 = one_pixel)"
proof -
  have 1: "preprocess_image example_env example_task (u16 example_store 0) = Inr one_pixel"
    by (simp add: example_store_def preprocess_one_pixel)
  have 2: "0 < next_u16 example_store" by (simp add: example_store_def)
  have 3: "u16 example_store 0 = one_pixel" by (simp add: example_store_def)
  from preprocess_image_store_frame[OF 1 2] 3
  have "\<exists>r s'. preprocess_image_store example_env example_task example_store 0 = Inr (r, s')
         \<and> u16 s' r = one_pixel \<and> r \<noteq> 0 \<and> u16 s' 0 = one_pixel"
    by auto
  with 1 2 show ?thesis by (intro conjI)
qed

section \<open>Properties of the fragment histogram\<close>

lemma uint16_max_eq: "uint16_max = 65535"
  by (simp add: uint16_max_def unsigned_minus_1_eq_mask mask_eq_exp_minus_1)

lemma length_histogramBins: "length histogramBins = 65535"
  by (simp add: histogramBins_def uint16_max_eq)

lemma nth_histogramBins: "j < 65535 \<Longrightarrow> histogramBins ! j = j"
  by (simp add: histogramBins_def uint16_max_eq)

lemma length_np_histogram: "length (np_histogram vals edges) = length edges - 1"
  by (simp add: np_histogram_def)

text \<open>The bin of a value: its own, except that the last bin also takes its upper edge.\<close>

lemma in_bin_histogramBins:
  assumes "j < 65534"
  shows "in_bin histogramBins j v = (j = (if v = 65534 then 65533 else v))"
  using assms by (auto simp: in_bin_def length_histogramBins nth_histogramBins)

lemma sum_list_indicator:
  "(\<Sum>j\<leftarrow>[0..<n]. if j = k then 1 else 0) = (if k < n then 1 else (0::nat))"
  by (induction n) auto

lemma map2_map_same: "map2 f (map g xs) (map h xs) = map (\<lambda>x. f (g x) (h x)) xs"
  by (induction xs) simp_all

lemma np_histogram_Cons:
  "np_histogram (v # vs) edges =
     map2 (+) (map (\<lambda>j. if in_bin edges j v then 1 else 0) [0..<length edges - 1])
              (np_histogram vs edges)"
  unfolding np_histogram_def map2_map_same by (rule map_cong) simp_all

lemma sum_list_map2_add:
  "length xs = length ys \<Longrightarrow> sum_list (map2 (+) xs ys) = sum_list xs + (sum_list ys :: nat)"
  by (induction xs ys rule: list_induct2) simp_all

lemma sum_np_histogram:
  "sum_list (np_histogram vals histogramBins) = length (filter (\<lambda>v. v < 65535) vals)"
proof (induction vals)
  case Nil
  show ?case by (simp add: np_histogram_def)
next
  case (Cons v vs)
  have "(\<Sum>j\<leftarrow>[0..<65534]. if in_bin histogramBins j v then 1 else 0)
      = (\<Sum>j\<leftarrow>[0..<65534]. if j = (if v = 65534 then 65533 else v) then 1 else (0::nat))"
    by (rule arg_cong[where f = sum_list], rule map_cong) (simp_all add: in_bin_histogramBins)
  also have "\<dots> = (if v < 65535 then 1 else 0)"
    unfolding sum_list_indicator by simp
  finally have one: "(\<Sum>j\<leftarrow>[0..<65534]. if in_bin histogramBins j v then 1 else 0)
      = (if v < 65535 then 1 else (0::nat))" .
  have "sum_list (np_histogram (v # vs) histogramBins)
      = (\<Sum>j\<leftarrow>[0..<65534]. if in_bin histogramBins j v then 1 else 0)
        + sum_list (np_histogram vs histogramBins)"
    unfolding np_histogram_Cons
    by (subst sum_list_map2_add) (simp_all add: length_np_histogram length_histogramBins)
  thus ?case using one Cons.IH by simp
qed

lemma sum_np_histogram_image:
  "sum_list (np_histogram (map unat (ravel img)) histogramBins) = counted img"
  by (simp add: sum_np_histogram counted_def uint16_max_eq)

lemma length_ravel:
  assumes "wf_array a"
  shows "length (ravel a) = fst (shape a) * snd (shape a)"
proof -
  have "\<forall>r\<in>set (rows a). length r = snd (shape a)"
    using assms by (simp add: wf_array_def list_all_iff)
  hence "sum_list (map length (rows a)) = length (rows a) * snd (shape a)"
    by (induction "rows a" arbitrary: a) (simp_all add: sum_list_const_mult map_replicate_const sum_list_replicate cong: map_cong)
  thus ?thesis using assms by (simp add: ravel_def length_concat wf_array_def)
qed

text \<open>An image with no pixel at the 16-bit maximum has all its pixels counted.\<close>

lemma counted_unsaturated:
  assumes "wf_array img" and "\<forall>p\<in>set (ravel img). p \<noteq> 65535"
  shows "counted img = fst (shape img) * snd (shape img)"
proof -
  have "unat p < uint16_max" if "p \<in> set (ravel img)" for p
  proof -
    from that assms(2) have "p \<noteq> 65535" by simp
    have "p = 65535" if "unat p = 65535"
    proof -
      have "p = of_nat (unat p)" by simp
      also have "\<dots> = 65535" unfolding that by simp
      finally show ?thesis .
    qed
    with \<open>p \<noteq> 65535\<close> have "unat p \<noteq> 65535" by blast
    with unat_uint16_le[of p] show ?thesis by (simp add: uint16_max_eq)
  qed
  hence "filter (\<lambda>v. v < uint16_max) (map unat (ravel img)) = map unat (ravel img)"
    by (simp add: filter_id_conv)
  thus ?thesis by (simp add: counted_def length_ravel[OF assms(1)])
qed

lemma add_to_row_shape: "add_to_row h bi c = Inr h' \<Longrightarrow> shape h' = shape h"
  by (auto simp: add_to_row_def split: if_splits)

lemma add_to_row_total:
  "bi < fst (shape h) \<Longrightarrow> length c = snd (shape h) \<Longrightarrow> \<exists>h'. add_to_row h bi c = Inr h'"
  by (simp add: add_to_row_def)

lemma add_to_row_effect:
  assumes "add_to_row h bi c = Inr h'" "wf_array h"
  shows "wf_array h'"
    and "k \<noteq> bi \<Longrightarrow> rows h' ! k = rows h ! k"
    and "sum_list (rows h' ! bi) = sum_list (rows h ! bi) + sum_list c"
proof -
  from assms(1) have bi: "bi < fst (shape h)" and c: "length c = snd (shape h)"
    and h': "h' = h\<lparr>rows := (rows h)[bi := map2 (+) (rows h ! bi) c]\<rparr>"
    by (auto simp: add_to_row_def split: if_splits)
  have lr: "length (rows h ! bi) = length c"
    using wf_arrayD(2)[OF assms(2) bi] c by simp
  show "wf_array h'"
  proof (rule wf_arrayI)
    show "length (rows h') = fst (shape h')" by (simp add: h' wf_arrayD(1)[OF assms(2)])
  next
    fix i assume "i < fst (shape h')"
    hence i: "i < fst (shape h)" by (simp add: h')
    show "length (rows h' ! i) = snd (shape h')"
      using i lr c wf_arrayD[OF assms(2)]
      by (cases "i = bi") (simp_all add: h')
  qed
  show "k \<noteq> bi \<Longrightarrow> rows h' ! k = rows h ! k" by (simp add: h')
  show "sum_list (rows h' ! bi) = sum_list (rows h ! bi) + sum_list c"
    using bi by (simp add: h' wf_arrayD(1)[OF assms(2)] sum_list_map2_add[OF lr])
qed

lemma accumulate_slices_shape:
  "accumulate_slices env t warp f ch bi zs h = Inr h' \<Longrightarrow> shape h' = shape h"
proof (induction zs arbitrary: h)
  case Nil
  then show ?case by simp
next
  case (Cons i zs)
  then show ?case
    by (auto split: sum.splits dest!: add_to_row_shape)
qed

lemma accumulate_bits_shape:
  "accumulate_bits env ds t warp f bs h = Inr h' \<Longrightarrow> shape h' = shape h"
proof (induction bs arbitrary: h)
  case Nil
  then show ?case by simp
next
  case (Cons b bs)
  then show ?case
    by (cases b) (auto split: sum.splits dest!: accumulate_slices_shape)
qed

lemma accumulate_slices_sum:
  assumes "\<forall>i\<in>set zs. \<exists>img. warp f ch i = Inr img \<and> preprocess_image env t img = Inr (restored i)"
    and "wf_array h" "bi < fst (shape h)" "snd (shape h) = 65534"
  shows "\<exists>h'. accumulate_slices env t warp f ch bi zs h = Inr h' \<and> wf_array h'
      \<and> shape h' = shape h
      \<and> (\<forall>k. k \<noteq> bi \<longrightarrow> rows h' ! k = rows h ! k)
      \<and> sum_list (rows h' ! bi) = sum_list (rows h ! bi) + (\<Sum>i\<leftarrow>zs. counted (restored i))"
  using assms
proof (induction zs arbitrary: h)
  case Nil
  then show ?case by simp
next
  case (Cons i zs)
  from Cons.prems(1) obtain img where
    img: "warp f ch i = Inr img" "preprocess_image env t img = Inr (restored i)" by auto
  let ?c = "np_histogram (map unat (ravel (restored i))) histogramBins"
  have "length ?c = snd (shape h)"
    by (simp add: length_np_histogram length_histogramBins Cons.prems(4))
  from add_to_row_total[OF Cons.prems(3) this] obtain h1 where
    h1: "add_to_row h bi ?c = Inr h1" ..
  note e = add_to_row_effect[OF h1 Cons.prems(2)] add_to_row_shape[OF h1]
  have "\<forall>i\<in>set zs. \<exists>img. warp f ch i = Inr img \<and> preprocess_image env t img = Inr (restored i)"
    using Cons.prems(1) by simp
  from Cons.IH[OF this e(1)] Cons.prems(3,4) e(4) obtain h' where
    h': "accumulate_slices env t warp f ch bi zs h1 = Inr h'" "wf_array h'"
    "shape h' = shape h1" "\<forall>k. k \<noteq> bi \<longrightarrow> rows h' ! k = rows h1 ! k"
    "sum_list (rows h' ! bi) = sum_list (rows h1 ! bi) + (\<Sum>i\<leftarrow>zs. counted (restored i))"
    by auto
  have "accumulate_slices env t warp f ch bi (i # zs) h = Inr h'"
    by (simp add: img h1 h'(1))
  moreover have "sum_list (rows h' ! bi)
      = sum_list (rows h ! bi) + (\<Sum>i\<leftarrow>i # zs. counted (restored i))"
    using h'(5) e(3) by (simp add: sum_np_histogram_image)
  moreover have "\<forall>k. k \<noteq> bi \<longrightarrow> rows h' ! k = rows h ! k"
    using h'(4) e(2) by simp
  ultimately show ?case using h'(2,3) e(4) by simp
qed

lemma accumulate_bits_sum:
  assumes "\<forall>(bi, b)\<in>set bs. bi < fst (shape h) \<and>
      (\<exists>ch. get_data_channel_for_bit ds b = Inr ch \<and>
        (\<forall>i\<in>set [0..<length (get_z_positions ds)]. \<exists>img. warp f ch i = Inr img
            \<and> preprocess_image env t img = Inr (restored b i)))"
    and "wf_array h" "snd (shape h) = 65534" "distinct (map fst bs)"
  shows "\<exists>h'. accumulate_bits env ds t warp f bs h = Inr h' \<and> wf_array h'
      \<and> shape h' = shape h
      \<and> (\<forall>k. k \<notin> fst ` set bs \<longrightarrow> rows h' ! k = rows h ! k)
      \<and> (\<forall>(bi, b)\<in>set bs. sum_list (rows h' ! bi) = sum_list (rows h ! bi)
            + (\<Sum>i\<leftarrow>[0..<length (get_z_positions ds)]. counted (restored b i)))"
  using assms
proof (induction bs arbitrary: h)
  case Nil
  then show ?case by simp
next
  case (Cons x bs)
  obtain bi b where x: "x = (bi, b)" by (cases x)
  let ?zs = "[0..<length (get_z_positions ds)]"
  from Cons.prems(1) x obtain ch where bi: "bi < fst (shape h)"
    and ch: "get_data_channel_for_bit ds b = Inr ch"
    and im: "\<forall>i\<in>set ?zs. \<exists>img. warp f ch i = Inr img
            \<and> preprocess_image env t img = Inr (restored b i)"
    by auto
  from accumulate_slices_sum[of "?zs" warp f ch env t "restored b" h bi,
      OF im Cons.prems(2) bi Cons.prems(3)] obtain h1 where
    h1: "accumulate_slices env t warp f ch bi ?zs h = Inr h1" "wf_array h1"
    "shape h1 = shape h" "\<forall>k. k \<noteq> bi \<longrightarrow> rows h1 ! k = rows h ! k"
    "sum_list (rows h1 ! bi) = sum_list (rows h ! bi) + (\<Sum>i\<leftarrow>?zs. counted (restored b i))"
    by blast
  have p: "\<forall>(bi, b)\<in>set bs. bi < fst (shape h1) \<and>
      (\<exists>ch. get_data_channel_for_bit ds b = Inr ch \<and>
        (\<forall>i\<in>set ?zs. \<exists>img. warp f ch i = Inr img
            \<and> preprocess_image env t img = Inr (restored b i)))"
    using Cons.prems(1) h1(3) by simp
  have d: "distinct (map fst bs)" "bi \<notin> fst ` set bs" using Cons.prems(4) x by simp_all
  from Cons.IH[OF p h1(2) _ d(1)] Cons.prems(3) h1(3) obtain h' where
    h': "accumulate_bits env ds t warp f bs h1 = Inr h'" "wf_array h'" "shape h' = shape h1"
    "\<forall>k. k \<notin> fst ` set bs \<longrightarrow> rows h' ! k = rows h1 ! k"
    "\<forall>(bi, b)\<in>set bs. sum_list (rows h' ! bi) = sum_list (rows h1 ! bi)
            + (\<Sum>i\<leftarrow>?zs. counted (restored b i))"
    by auto
  have r: "accumulate_bits env ds t warp f (x # bs) h = Inr h'"
    by (simp add: x ch h1(1) h'(1))
  have u: "\<forall>k. k \<notin> fst ` set (x # bs) \<longrightarrow> rows h' ! k = rows h ! k"
    using h'(4) h1(4) x by simp
  have s: "\<forall>(bj, c)\<in>set (x # bs). sum_list (rows h' ! bj) = sum_list (rows h ! bj)
            + (\<Sum>i\<leftarrow>?zs. counted (restored c i))"
  proof (intro ballI, clarify)
    fix bj c assume m: "(bj, c) \<in> set (x # bs)"
    show "sum_list (rows h' ! bj) = sum_list (rows h ! bj)
            + (\<Sum>i\<leftarrow>?zs. counted (restored c i))"
    proof (cases "(bj, c) \<in> set bs")
      case True
      hence "bj \<in> fst ` set bs" by force
      with d(2) have "bj \<noteq> bi" by auto
      with h1(4) have "rows h1 ! bj = rows h ! bj" by simp
      with h'(5) True show ?thesis by auto
    next
      case False
      with m x have e: "bj = bi" "c = b" by auto
      from d(2) h'(4) have "rows h' ! bi = rows h1 ! bi" by simp
      with h1(5) e show ?thesis by simp
    qed
  qed
  from r h'(2) h'(3) h1(3) u s show ?case by simp
qed

lemma sum_list_zeros_row: "bi < fst s \<Longrightarrow> sum_list (rows (zeros s) ! bi) = 0"
  by (simp add: zeros_def)

text \<open>
  What a completed run counts: when the collaborators return, the run returns, and the
  row of each bit sums to the number of pixels below 65535 in the restored images of
  its depth slices.
\<close>

lemma run_analysis_histogram:
  assumes "parameters t ''warp_task'' = Some w" and "load_analysis_task ds w = Inr warp"
    and "parameters t ''codebook_index'' = Some ci" and "get_codebook ds ci = Inr cb"
    and "length (get_bit_names cb) \<le> get_bit_count cb"
    and "\<forall>b\<in>set (get_bit_names cb). \<exists>ch. get_data_channel_for_bit ds b = Inr ch \<and>
        (\<forall>i\<in>set [0..<length (get_z_positions ds)]. \<exists>img. warp f ch i = Inr img
            \<and> preprocess_image env t img = Inr (restored b i))"
  shows "\<exists>h. run_analysis env ds t f = Inr (save_pixel_histogram ds h f) \<and> wf_array h
      \<and> shape h = (get_bit_count cb, 65534)
      \<and> (\<forall>bi < length (get_bit_names cb). sum_list (rows h ! bi) =
            (\<Sum>i\<leftarrow>[0..<length (get_z_positions ds)]. counted (restored (get_bit_names cb ! bi) i)))"
proof -
  let ?bs = "enumerate 0 (get_bit_names cb)"
  let ?h0 = "zeros (get_bit_count cb, length histogramBins - 1)"
  let ?zs = "[0..<length (get_z_positions ds)]"
  have s0: "shape ?h0 = (get_bit_count cb, 65534)"
    by (simp add: zeros_def length_histogramBins)
  have p: "\<forall>(bi, b)\<in>set ?bs. bi < fst (shape ?h0) \<and>
      (\<exists>ch. get_data_channel_for_bit ds b = Inr ch \<and>
        (\<forall>i\<in>set ?zs. \<exists>img. warp f ch i = Inr img
            \<and> preprocess_image env t img = Inr (restored b i)))"
  proof (intro ballI, clarify)
    fix bi b assume "(bi, b) \<in> set ?bs"
    hence bi: "bi < length (get_bit_names cb)" and b: "b = get_bit_names cb ! bi"
      by (auto simp: in_set_enumerate_eq)
    hence "b \<in> set (get_bit_names cb)" by simp
    with assms(6) bi assms(5) s0
    show "bi < fst (shape ?h0) \<and>
      (\<exists>ch. get_data_channel_for_bit ds b = Inr ch \<and>
        (\<forall>i\<in>set ?zs. \<exists>img. warp f ch i = Inr img
            \<and> preprocess_image env t img = Inr (restored b i)))"
      by simp
  qed
  have d: "distinct (map fst ?bs)" by simp
  have s1: "snd (shape ?h0) = 65534" using s0 by simp
  from accumulate_bits_sum[of ?bs ?h0 ds warp f env t restored, OF p wf_zeros s1 d]
  obtain h where h: "accumulate_bits env ds t warp f ?bs ?h0 = Inr h" "wf_array h"
    "shape h = shape ?h0"
    "\<forall>(bi, b)\<in>set ?bs. sum_list (rows h ! bi) = sum_list (rows ?h0 ! bi)
            + (\<Sum>i\<leftarrow>?zs. counted (restored b i))"
    by blast
  have r: "run_analysis env ds t f = Inr (save_pixel_histogram ds h f)"
    by (simp only: run_analysis_def getitem_def assms(1-4) h(1) option.case sum.case)
  have "sum_list (rows h ! bi) = (\<Sum>i\<leftarrow>?zs. counted (restored (get_bit_names cb ! bi) i))"
    if bi: "bi < length (get_bit_names cb)" for bi
  proof -
    have "(bi, get_bit_names cb ! bi) \<in> set ?bs" using bi by (simp add: in_set_enumerate_eq)
    with h(4) have "sum_list (rows h ! bi) = sum_list (rows ?h0 ! bi)
            + (\<Sum>i\<leftarrow>?zs. counted (restored (get_bit_names cb ! bi) i))" by blast
    moreover have "sum_list (rows ?h0 ! bi) = 0"
      using bi assms(5) by (intro sum_list_zeros_row) simp
    ultimately show ?thesis by simp
  qed
  with r h(2,3) s0 show ?thesis by auto
qed

text \<open>
  C1, as the code has it. The histogram saved by a completed \<^verbatim>\<open>_run_analysis\<close> has one
  row per bit counted by the codebook and 65534 columns: \<^verbatim>\<open>np.arange\<close> stops before
  65535, which leaves 65535 edges and one bin fewer.
\<close>

theorem run_analysis_shape:
  assumes "run_analysis env ds t f = Inr ds'"
  shows "\<exists>ci cb h. parameters t ''codebook_index'' = Some ci \<and> get_codebook ds ci = Inr cb
      \<and> pixel_histograms ds' f = Some h
      \<and> shape h = (get_bit_count cb, 65534)"
proof -
  from assms obtain w warp ci cb h where
    ci: "getitem (parameters t) ''codebook_index'' = Inr ci"
    and cb: "get_codebook ds ci = Inr cb"
    and h: "accumulate_bits env ds t warp f (enumerate 0 (get_bit_names cb))
             (zeros (get_bit_count cb, length histogramBins - 1)) = Inr h"
    and ds': "ds' = save_pixel_histogram ds h f"
    by (auto simp: run_analysis_def split: sum.splits)
  from ci have "parameters t ''codebook_index'' = Some ci"
    by (simp add: getitem_def split: option.splits)
  moreover have "shape h = (get_bit_count cb, 65534)"
    using accumulate_bits_shape[OF h] by (simp add: zeros_def length_histogramBins)
  moreover have "pixel_histograms ds' f = Some h"
    by (simp add: ds' save_pixel_histogram_def)
  ultimately show ?thesis using cb by blast
qed

lemma run_saturated:
  "\<exists>h. run_analysis example_env saturated_dataset example_task 0
         = Inr (save_pixel_histogram saturated_dataset h 0)
     \<and> wf_array h \<and> shape h = (1, 65534) \<and> sum_list (rows h ! 0) = 0"
proof -
  let ?cb = "\<lparr>get_bit_names = [''bit1''], get_bit_count = 1\<rparr>"
  have 1: "parameters example_task ''warp_task'' = Some (Str ''warp'')"
    by (simp add: example_task_def)
  have 2: "load_analysis_task saturated_dataset (Str ''warp'') = Inr (\<lambda>fov channel z. Inr one_pixel)"
    by (simp add: saturated_dataset_def)
  have 3: "parameters example_task ''codebook_index'' = Some (Num 0)"
    by (simp add: example_task_def)
  have 4: "get_codebook saturated_dataset (Num 0) = Inr ?cb"
    by (simp add: saturated_dataset_def)
  have 5: "length (get_bit_names ?cb) \<le> get_bit_count ?cb" by simp
  have 6: "\<forall>b\<in>set (get_bit_names ?cb). \<exists>ch. get_data_channel_for_bit saturated_dataset b = Inr ch \<and>
        (\<forall>i\<in>set [0..<length (get_z_positions saturated_dataset)].
           \<exists>img. (\<lambda>fov channel z. Inr one_pixel) 0 ch i = Inr img
            \<and> preprocess_image example_env example_task img = Inr ((\<lambda>b i. one_pixel) b i))"
    by (simp add: saturated_dataset_def preprocess_one_pixel)
  have c: "counted one_pixel = 0"
    by (simp add: counted_def ravel_def one_pixel_def uint16_max_eq)
  have z: "length (get_z_positions saturated_dataset) = 1" by (simp add: saturated_dataset_def)
  from run_analysis_histogram[OF 1 2 3 4 5 6] show ?thesis
    by (simp add: c z)
qed

theorem run_analysis_shape_witness:
  "\<exists>ds'. run_analysis example_env saturated_dataset example_task 0 = Inr ds'
     \<and> map_option shape (pixel_histograms ds' 0) = Some (1, 65534)"
proof -
  from run_saturated obtain h where
    r: "run_analysis example_env saturated_dataset example_task 0
         = Inr (save_pixel_histogram saturated_dataset h 0)" by blast
  have "get_codebook saturated_dataset ci = Inr \<lparr>get_bit_names = [''bit1''], get_bit_count = 1\<rparr>" for ci
    by (simp add: saturated_dataset_def)
  with run_analysis_shape[OF r]
  have "map_option shape (pixel_histograms (save_pixel_histogram saturated_dataset h 0) 0)
          = Some (1, 65534)"
    by auto
  with r show ?thesis by blast
qed


end
